theory Spec2Isabelle
  imports Main "HOL-Library.Word"
begin

section \<open>The CDN service of lyricsflip\_store\<close>

text \<open>
  A shallow embedding of the class \<open>CDNService\<close>: its five operations, the requests they
  build for the object store, the CDN control plane and the metrics backend, and their
  error handling. The remote services are parameters of the model (what they answer to a
  request is not decided by this code); the clock, the logger and the requests that were
  sent are explicit state.
\<close>

subsection \<open>Values of the host language\<close>

text \<open>
  A template literal renders a number in decimal. Epoch milliseconds are natural numbers
  far below \<open>10^21\<close>, where JavaScript switches to exponent notation.
\<close>

definition digit_char :: "nat \<Rightarrow> char" where
  "digit_char d = ''0123456789'' ! d"

fun Number_toString :: "nat \<Rightarrow> string" where
  "Number_toString n =
     (if n < 10 then [digit_char n]
      else Number_toString (n div 10) @ [digit_char (n mod 10)])"

declare Number_toString.simps [simp del]

text \<open>A missing configuration value is \<open>undefined\<close>, which a template literal renders as such.\<close>

definition template :: "string option \<Rightarrow> string" where
  "template v = (case v of None \<Rightarrow> ''undefined'' | Some s \<Rightarrow> s)"

text \<open>\<open>Array.prototype.join\<close>.\<close>

fun join :: "string \<Rightarrow> string list \<Rightarrow> string" where
  "join sep [] = []"
| "join sep [x] = x"
| "join sep (x # y # ys) = x @ sep @ join sep (y # ys)"

subsection \<open>Data model\<close>

datatype quality = low | medium | high | lossless

datatype format = mp3 | aac | flac

fun quality_str :: "quality \<Rightarrow> string" where
  "quality_str low = ''low''"
| "quality_str medium = ''medium''"
| "quality_str high = ''high''"
| "quality_str lossless = ''lossless''"

fun format_str :: "format \<Rightarrow> string" where
  "format_str mp3 = ''mp3''"
| "format_str aac = ''aac''"
| "format_str flac = ''flac''"

text \<open>Every field of \<open>StreamingOptions\<close> is optional.\<close>

record StreamingOptions =
  quality :: "quality option"
  format :: "format option"
  bitrate :: "int option"

record CDNUploadResult =
  url :: string
  cdnUrl :: string
  key :: string
  etag :: string

type_synonym Buffer = "8 word list"

text \<open>A \<open>Date\<close> holds its time value, milliseconds since the epoch.\<close>

datatype Date = Date (getTime: int)

subsection \<open>Requests and answers of the remote services\<close>

record PutObjectRequest =
  Bucket :: "string option"
  Key :: string
  Body :: Buffer
  ContentType :: string
  CacheControl :: string
  Metadata :: "(string \<times> string) list"

record SendData =
  res_Location :: string
  res_Key :: string
  res_ETag :: string

record GetObjectParams =
  get_Bucket :: "string option"
  get_Key :: string
  Expires :: nat
  ResponseContentType :: string
  ResponseCacheControl :: string

record Paths =
  Quantity :: nat
  Items :: "string list"

record InvalidationBatch =
  CallerReference :: string
  batch_Paths :: Paths

record CreateInvalidationRequest =
  DistributionId :: "string option"
  InvalidationBatch :: InvalidationBatch

record Dimension =
  dim_Name :: string
  dim_Value :: "string option"

record GetMetricStatisticsInput =
  MetricName :: string
  Namespace :: string
  StartTime :: Date
  EndTime :: Date
  Period :: nat
  Statistics :: "string list"
  Dimensions :: "Dimension list"

text \<open>What the metrics backend answers is passed through untouched.\<close>

record Datapoint =
  dp_Timestamp :: Date
  dp_Sum :: int
  dp_Average :: int

record GetMetricStatisticsOutput =
  out_Label :: string
  out_Datapoints :: "Datapoint list"

text \<open>Whatever a client of the SDK raises.\<close>

datatype error = Error (code: string) (message: string)

datatype api_call =
  S3_upload PutObjectRequest
| S3_getSignedUrl string GetObjectParams
| CloudFront_createInvalidation CreateInvalidationRequest
| CloudWatch_getMetricStatistics GetMetricStatisticsInput

datatype log_entry =
  Log_error string error
| Log_log string

text \<open>
  The world outside: the clock (its successive readings, in epoch milliseconds) and the
  answers of the three services to the requests they are handed. None of it is decided by
  the service's code, so the properties below hold for every world.
\<close>

record world =
  clock :: "nat \<Rightarrow> nat"
  s3_upload :: "PutObjectRequest \<Rightarrow> error + SendData"
  s3_getSignedUrl :: "string \<Rightarrow> GetObjectParams \<Rightarrow> error + string"
  cloudFront_createInvalidation :: "CreateInvalidationRequest \<Rightarrow> error + unit"
  cloudWatch_getMetricStatistics :: "GetMetricStatisticsInput \<Rightarrow> error + GetMetricStatisticsOutput"

text \<open>
  The state an operation changes: how many times the clock was read, what was logged and
  which requests went out, oldest first.
\<close>

record state =
  reads :: nat
  logged :: "log_entry list"
  sent :: "api_call list"

subsection \<open>The service object\<close>

type_synonym ConfigService = "string \<rightharpoonup> string"

record CDNService =
  configService :: ConfigService
  bucketName :: "string option"
  cdnDomain :: "string option"

definition constructor :: "ConfigService \<Rightarrow> CDNService" where
  "constructor cfg =
     \<lparr> configService = cfg,
       bucketName = cfg ''AWS_S3_BUCKET'',
       cdnDomain = cfg ''CDN_DOMAIN'' \<rparr>"

subsection \<open>Primitive effects\<close>

definition Date_now :: "world \<Rightarrow> state \<Rightarrow> nat \<times> state" where
  "Date_now w s = (clock w (reads s), s\<lparr>reads := Suc (reads s)\<rparr>)"

definition new_Date :: "world \<Rightarrow> state \<Rightarrow> Date \<times> state" where
  "new_Date w s = (let (t, s') = Date_now w s in (Date (int t), s'))"

definition logger_error :: "string \<Rightarrow> error \<Rightarrow> state \<Rightarrow> state" where
  "logger_error msg e s = s\<lparr>logged := logged s @ [Log_error msg e]\<rparr>"

definition logger_log :: "string \<Rightarrow> state \<Rightarrow> state" where
  "logger_log msg s = s\<lparr>logged := logged s @ [Log_log msg]\<rparr>"

definition send :: "api_call \<Rightarrow> state \<Rightarrow> state" where
  "send c s = s\<lparr>sent := sent s @ [c]\<rparr>"

subsection \<open>\<open>Date.prototype.toISOString\<close>\<close>

text \<open>
  \<open>uploadAudioFile\<close> stamps the object with \<open>new Date().toISOString()\<close>, a built-in of
  the language. Its meaning is taken from the language standard (ECMA-262, Date objects):
  the time value is split into the day number and the time within the day, the year is
  the last one that starts on or before the day, the month and the day of the month come
  from the day within the year, and the fields are written as
  \<open>YYYY-MM-DDTHH:mm:ss.sssZ\<close>.
\<close>

definition msPerDay :: int where
  "msPerDay = 86400000"

definition Day :: "int \<Rightarrow> int" where
  "Day t = t div msPerDay"

definition TimeWithinDay :: "int \<Rightarrow> int" where
  "TimeWithinDay t = t mod msPerDay"

definition DaysInYear :: "int \<Rightarrow> int" where
  "DaysInYear y =
     (if y mod 4 \<noteq> 0 then 365
      else if y mod 100 \<noteq> 0 then 366
      else if y mod 400 \<noteq> 0 then 365
      else 366)"

definition DayFromYear :: "int \<Rightarrow> int" where
  "DayFromYear y =
     365 * (y - 1970) + (y - 1969) div 4 - (y - 1901) div 100 + (y - 1601) div 400"

text \<open>The search for the year walks down from a year that is not too early.\<close>

function year_down :: "int \<Rightarrow> int \<Rightarrow> int" where
  "year_down d y = (if DayFromYear y \<le> d then y else year_down d (y - 1))"
  by pat_completeness auto
termination
proof (relation "measure (\<lambda>(d, y). nat (DayFromYear y - d))")
  show "wf (measure (\<lambda>(d, y). nat (DayFromYear y - d)))"
    by simp
next
  fix d y :: int
  assume late: "\<not> DayFromYear y \<le> d"
  have a: "(y - 1 - 1969) div 4 \<le> (y - 1969) div 4"
    by (rule zdiv_mono1) simp_all
  have "(y - 1901) div 100 \<le> (y - 1 - 1901 + 100) div 100"
    by (rule zdiv_mono1) simp_all
  also have "\<dots> = (y - 1 - 1901) div 100 + 1"
    by (rule div_add_self2) simp
  finally have b: "(y - 1901) div 100 \<le> (y - 1 - 1901) div 100 + 1" .
  have c: "(y - 1 - 1601) div 400 \<le> (y - 1601) div 400"
    by (rule zdiv_mono1) simp_all
  have "p' \<le> p \<Longrightarrow> q \<le> q' + 1 \<Longrightarrow> r' \<le> r \<Longrightarrow>
        365 * (y - 1 - 1970) + p' - q' + r' < 365 * (y - 1970) + p - q + r"
    for p p' q q' r r' :: int
    by (simp add: algebra_simps)
  from this [OF a b c] have "DayFromYear (y - 1) < DayFromYear y"
    unfolding DayFromYear_def .
  with late show "((d, y - 1), (d, y)) \<in> measure (\<lambda>(d, y). nat (DayFromYear y - d))"
    by simp
qed

declare year_down.simps [simp del]

definition YearFromDay :: "int \<Rightarrow> int" where
  "YearFromDay d = year_down d (1970 + (if 0 \<le> d then d div 365 else d div 366))"

definition InLeapYear :: "int \<Rightarrow> int" where
  "InLeapYear y = (if DaysInYear y = 366 then 1 else 0)"

text \<open>Months count from 0, days of the month from 1.\<close>

definition MonthFromDay :: "int \<Rightarrow> int \<Rightarrow> int" where
  "MonthFromDay leap n =
     (if n < 31 then 0
      else if n < 59 + leap then 1
      else if n < 90 + leap then 2
      else if n < 120 + leap then 3
      else if n < 151 + leap then 4
      else if n < 181 + leap then 5
      else if n < 212 + leap then 6
      else if n < 243 + leap then 7
      else if n < 273 + leap then 8
      else if n < 304 + leap then 9
      else if n < 334 + leap then 10
      else 11)"

definition DateFromDay :: "int \<Rightarrow> int \<Rightarrow> int" where
  "DateFromDay leap n =
     (let m = MonthFromDay leap n in
      if m = 0 then n + 1
      else if m = 1 then n - 30
      else if m = 2 then n - 58 - leap
      else if m = 3 then n - 89 - leap
      else if m = 4 then n - 119 - leap
      else if m = 5 then n - 150 - leap
      else if m = 6 then n - 180 - leap
      else if m = 7 then n - 211 - leap
      else if m = 8 then n - 242 - leap
      else if m = 9 then n - 272 - leap
      else if m = 10 then n - 303 - leap
      else n - 333 - leap)"

text \<open>\<open>String.prototype.padStart\<close> with zeros, on the decimal digits of a number.\<close>

definition pad :: "nat \<Rightarrow> int \<Rightarrow> string" where
  "pad w n =
     (let ds = Number_toString (nat n) in replicate (w - length ds) (CHR ''0'') @ ds)"

text \<open>Years outside 0 to 9999 are written with a sign and six digits.\<close>

definition year_string :: "int \<Rightarrow> string" where
  "year_string y =
     (if 0 \<le> y \<and> y \<le> 9999 then pad 4 y
      else (if y < 0 then CHR ''-'' else CHR ''+'') # pad 6 \<bar>y\<bar>)"

definition toISOString :: "Date \<Rightarrow> string" where
  "toISOString d =
     (let t = getTime d;
          y = YearFromDay (Day t);
          n = Day t - DayFromYear y;
          leap = InLeapYear y;
          r = TimeWithinDay t
      in year_string y @ ''-'' @ pad 2 (MonthFromDay leap n + 1) @ ''-''
         @ pad 2 (DateFromDay leap n) @ ''T''
         @ pad 2 (r div 3600000) @ '':'' @ pad 2 (r div 60000 mod 60) @ '':''
         @ pad 2 (r div 1000 mod 60) @ ''.'' @ pad 3 (r mod 1000) @ ''Z'')"

subsection \<open>The operations\<close>

definition uploadAudioFile ::
  "CDNService \<Rightarrow> world \<Rightarrow> Buffer \<Rightarrow> string \<Rightarrow> string option \<Rightarrow> state
   \<Rightarrow> (error + CDNUploadResult) \<times> state" where
  "uploadAudioFile this w file k contentType s =
     (let ct = (case contentType of None \<Rightarrow> ''audio/mpeg'' | Some c \<Rightarrow> c);
          (d, s1) = new_Date w s;
          uploadParams =
            \<lparr> Bucket = bucketName this, Key = k, Body = file, ContentType = ct,
              CacheControl = ''max-age=31536000'',
              Metadata = [(''uploaded-at'', toISOString d)] \<rparr>;
          s2 = send (S3_upload uploadParams) s1
      in case s3_upload w uploadParams of
           Inr result \<Rightarrow>
             (Inr \<lparr> url = res_Location result,
                    cdnUrl = ''https://'' @ template (cdnDomain this) @ ''/'' @ k,
                    key = res_Key result,
                    etag = res_ETag result \<rparr>, s2)
         | Inl e \<Rightarrow>
             (Inl e, logger_error (''Failed to upload audio file '' @ k @ '':'') e s2))"

definition generateStreamingUrl ::
  "CDNService \<Rightarrow> world \<Rightarrow> string \<Rightarrow> StreamingOptions option \<Rightarrow> state
   \<Rightarrow> (error + string) \<times> state" where
  "generateStreamingUrl this w trackId options s =
     (let opts = (case options of
                    None \<Rightarrow> \<lparr> quality = None, format = None, bitrate = None \<rparr>
                  | Some opts \<Rightarrow> opts);
          q = (case quality opts of None \<Rightarrow> medium | Some q \<Rightarrow> q);
          f = (case format opts of None \<Rightarrow> mp3 | Some f \<Rightarrow> f);
          k = ''tracks/'' @ trackId @ ''/'' @ quality_str q @ ''.'' @ format_str f;
          params =
            \<lparr> get_Bucket = bucketName this, get_Key = k, Expires = 3600,
              ResponseContentType = ''audio/'' @ format_str f,
              ResponseCacheControl = ''max-age=3600'' \<rparr>;
          s1 = send (S3_getSignedUrl ''getObject'' params) s
      in case s3_getSignedUrl w ''getObject'' params of
           Inr signedUrl \<Rightarrow> (Inr signedUrl, s1)
         | Inl e \<Rightarrow>
             (Inl e,
              logger_error (''Failed to generate streaming URL for track '' @ trackId @ '':'')
                e s1))"

definition generateCDNStreamingUrl ::
  "CDNService \<Rightarrow> string \<Rightarrow> StreamingOptions option \<Rightarrow> state
   \<Rightarrow> (error + string) \<times> state" where
  "generateCDNStreamingUrl this trackId options s =
     (let opts = (case options of
                    None \<Rightarrow> \<lparr> quality = None, format = None, bitrate = None \<rparr>
                  | Some opts \<Rightarrow> opts);
          q = (case quality opts of None \<Rightarrow> medium | Some q \<Rightarrow> q);
          f = (case format opts of None \<Rightarrow> mp3 | Some f \<Rightarrow> f);
          k = ''tracks/'' @ trackId @ ''/'' @ quality_str q @ ''.'' @ format_str f
      in (Inr (''https://'' @ template (cdnDomain this) @ ''/'' @ k), s))"

definition invalidateCDNCache ::
  "CDNService \<Rightarrow> world \<Rightarrow> string list \<Rightarrow> state \<Rightarrow> (error + unit) \<times> state" where
  "invalidateCDNCache this w paths s =
     (let distributionId = configService this ''CLOUDFRONT_DISTRIBUTION_ID'';
          (now, s1) = Date_now w s;
          invalidationParams =
            \<lparr> DistributionId = distributionId,
              InvalidationBatch =
                \<lparr> CallerReference = ''invalidation-'' @ Number_toString now,
                  batch_Paths =
                    \<lparr> Quantity = length paths,
                      Items = map (\<lambda>path. ''/'' @ path) paths \<rparr> \<rparr> \<rparr>;
          s2 = send (CloudFront_createInvalidation invalidationParams) s1
      in case cloudFront_createInvalidation w invalidationParams of
           Inr _ \<Rightarrow>
             (Inr (),
              logger_log (''CDN cache invalidated for paths: '' @ join '', '' paths) s2)
         | Inl e \<Rightarrow> (Inl e, logger_error ''Failed to invalidate CDN cache:'' e s2))"

definition getStreamingMetrics ::
  "CDNService \<Rightarrow> world \<Rightarrow> string \<Rightarrow> state
   \<Rightarrow> (error + GetMetricStatisticsOutput option) \<times> state" where
  "getStreamingMetrics this w trackId s =
     (let (now, s1) = Date_now w s;
          (endTime, s2) = new_Date w s1;
          params =
            \<lparr> MetricName = ''BytesDownloaded'', Namespace = ''AWS/CloudFront'',
              StartTime = Date (int now - 24 * 60 * 60 * 1000), EndTime = endTime,
              Period = 3600, Statistics = [''Sum'', ''Average''],
              Dimensions =
                [\<lparr> dim_Name = ''DistributionId'',
                   dim_Value = configService this ''CLOUDFRONT_DISTRIBUTION_ID'' \<rparr>] \<rparr>;
          s3 = send (CloudWatch_getMetricStatistics params) s2
      in case cloudWatch_getMetricStatistics w params of
           Inr metrics \<Rightarrow> (Inr (Some metrics), s3)
         | Inl e \<Rightarrow>
             (Inr None,
              logger_error (''Failed to get streaming metrics for track '' @ trackId @ '':'')
                e s3))"

subsection \<open>The contracts the operations are checked against\<close>

text \<open>The storage key layout \<open>tracks/{trackId}/{quality}.{format}\<close>.\<close>

definition storage_key :: "string \<Rightarrow> quality \<Rightarrow> format \<Rightarrow> string" where
  "storage_key trackId q f =
     ''tracks/'' @ trackId @ ''/'' @ quality_str q @ ''.'' @ format_str f"

text \<open>The stated defaults: quality medium, format mp3.\<close>

definition effective_quality :: "StreamingOptions option \<Rightarrow> quality" where
  "effective_quality options =
     (case options of
        None \<Rightarrow> medium
      | Some opts \<Rightarrow> (case quality opts of None \<Rightarrow> medium | Some q \<Rightarrow> q))"

definition effective_format :: "StreamingOptions option \<Rightarrow> format" where
  "effective_format options =
     (case options of
        None \<Rightarrow> mp3
      | Some opts \<Rightarrow> (case format opts of None \<Rightarrow> mp3 | Some f \<Rightarrow> f))"

text \<open>Reading a decimal numeral back.\<close>

definition digit_value :: "char \<Rightarrow> nat" where
  "digit_value c = of_char c - 48"

definition parse_nat :: "string \<Rightarrow> nat" where
  "parse_nat cs = foldl (\<lambda>a c. 10 * a + digit_value c) 0 cs"

text \<open>
  Reading an ISO-8601 UTC date-time back into a time value: the calendar date as four
  digits of year (or a sign and six), month and day, the letter T, the time of day to the
  millisecond, and the letter Z. Fields out of range are refused.
\<close>

definition is_digit :: "char \<Rightarrow> bool" where
  "is_digit c = (c \<in> set ''0123456789'')"

definition digits :: "nat \<Rightarrow> string \<Rightarrow> (int \<times> string) option" where
  "digits n cs =
     (if n \<le> length cs \<and> list_all is_digit (take n cs)
      then Some (int (parse_nat (take n cs)), drop n cs)
      else None)"

definition expect :: "char \<Rightarrow> string \<Rightarrow> string option" where
  "expect c cs = (case cs of [] \<Rightarrow> None | x # xs \<Rightarrow> if x = c then Some xs else None)"

definition year_digits :: "string \<Rightarrow> (int \<times> string) option" where
  "year_digits cs =
     (case cs of
        [] \<Rightarrow> None
      | c # rest \<Rightarrow>
          if c = CHR ''+'' then digits 6 rest
          else if c = CHR ''-'' then
            (case digits 6 rest of
               None \<Rightarrow> None
             | Some (y, rest') \<Rightarrow> if y = 0 then None else Some (- y, rest'))
          else digits 4 cs)"

definition DaysBeforeMonth :: "int \<Rightarrow> int \<Rightarrow> int" where
  "DaysBeforeMonth leap m =
     (if m = 1 then 0
      else if m = 2 then 31
      else if m = 3 then 59 + leap
      else if m = 4 then 90 + leap
      else if m = 5 then 120 + leap
      else if m = 6 then 151 + leap
      else if m = 7 then 181 + leap
      else if m = 8 then 212 + leap
      else if m = 9 then 243 + leap
      else if m = 10 then 273 + leap
      else if m = 11 then 304 + leap
      else 334 + leap)"

definition DaysInMonth :: "int \<Rightarrow> int \<Rightarrow> int" where
  "DaysInMonth leap m =
     (if m = 2 then 28 + leap
      else if m = 4 \<or> m = 6 \<or> m = 9 \<or> m = 11 then 30
      else 31)"

definition iso_time_value :: "int \<Rightarrow> int \<Rightarrow> int \<Rightarrow> int \<Rightarrow> int \<Rightarrow> int \<Rightarrow> int \<Rightarrow> int option" where
  "iso_time_value y mo d h mi sec ms =
     (let leap = InLeapYear y in
      if 1 \<le> mo \<and> mo \<le> 12 \<and> 1 \<le> d \<and> d \<le> DaysInMonth leap mo
         \<and> h \<le> 23 \<and> mi \<le> 59 \<and> sec \<le> 59
      then Some ((DayFromYear y + DaysBeforeMonth leap mo + d - 1) * msPerDay
                 + h * 3600000 + mi * 60000 + sec * 1000 + ms)
      else None)"

definition parse_iso :: "string \<Rightarrow> int option" where
  "parse_iso cs =
     Option.bind (year_digits cs) (\<lambda>(y, cs).
     Option.bind (expect CHR ''-'' cs) (\<lambda>cs.
     Option.bind (digits 2 cs) (\<lambda>(mo, cs).
     Option.bind (expect CHR ''-'' cs) (\<lambda>cs.
     Option.bind (digits 2 cs) (\<lambda>(d, cs).
     Option.bind (expect CHR ''T'' cs) (\<lambda>cs.
     Option.bind (digits 2 cs) (\<lambda>(h, cs).
     Option.bind (expect CHR '':'' cs) (\<lambda>cs.
     Option.bind (digits 2 cs) (\<lambda>(mi, cs).
     Option.bind (expect CHR '':'' cs) (\<lambda>cs.
     Option.bind (digits 2 cs) (\<lambda>(sec, cs).
     Option.bind (expect CHR ''.'' cs) (\<lambda>cs.
     Option.bind (digits 3 cs) (\<lambda>(ms, cs).
     Option.bind (expect CHR ''Z'' cs) (\<lambda>cs.
       if cs = [] then iso_time_value y mo d h mi sec ms else None))))))))))))))"

text \<open>The caller-references of the invalidations that went out, oldest first.\<close>

fun caller_reference :: "api_call \<Rightarrow> string option" where
  "caller_reference (CloudFront_createInvalidation r) =
     Some (CallerReference (InvalidationBatch r))"
| "caller_reference (S3_upload r) = None"
| "caller_reference (S3_getSignedUrl operation p) = None"
| "caller_reference (CloudWatch_getMetricStatistics p) = None"

definition caller_references :: "state \<Rightarrow> string list" where
  "caller_references s = List.map_filter caller_reference (sent s)"

subsection \<open>Sample surroundings\<close>

text \<open>
  A service configured from three settings, a world whose services all answer, one whose
  services all fail, and one whose clock stands still within a millisecond.
\<close>

definition sample_service :: CDNService where
  "sample_service =
     constructor [''AWS_S3_BUCKET'' \<mapsto> ''audio'', ''CDN_DOMAIN'' \<mapsto> ''cdn.example'',
                  ''CLOUDFRONT_DISTRIBUTION_ID'' \<mapsto> ''E123'']"

definition world_up :: world where
  "world_up =
     \<lparr> clock = (\<lambda>n. 1700000000000 + n),
       s3_upload = (\<lambda>r. Inr \<lparr> res_Location = ''https://s3.example/'' @ Key r,
                                 res_Key = Key r, res_ETag = ''e1'' \<rparr>),
       s3_getSignedUrl = (\<lambda>operation p. Inr (''https://s3.example/'' @ get_Key p @ ''?sig'')),
       cloudFront_createInvalidation = (\<lambda>r. Inr ()),
       cloudWatch_getMetricStatistics =
         (\<lambda>p. Inr \<lparr> out_Label = MetricName p, out_Datapoints = [] \<rparr>) \<rparr>"

definition outage :: error where
  "outage = Error ''ServiceUnavailable'' ''try again''"

definition world_down :: world where
  "world_down =
     \<lparr> clock = (\<lambda>n. 1700000000000 + n),
       s3_upload = (\<lambda>r. Inl outage),
       s3_getSignedUrl = (\<lambda>operation p. Inl outage),
       cloudFront_createInvalidation = (\<lambda>r. Inl outage),
       cloudWatch_getMetricStatistics = (\<lambda>p. Inl outage) \<rparr>"

definition world_same_ms :: world where
  "world_same_ms = world_up \<lparr> clock := (\<lambda>n. 1700000000000) \<rparr>"

definition state0 :: state where
  "state0 = \<lparr> reads = 0, logged = [], sent = [] \<rparr>"

section \<open>Properties\<close>

subsection \<open>Decimal numerals\<close>

lemma digit_value_digit_char: "d < 10 \<Longrightarrow> digit_value (digit_char d) = d"
proof -
  assume "d < 10"
  then have "d \<in> {0, 1, 2, 3, 4, 5, 6, 7, 8, 9}" by auto
  then show ?thesis
    by (auto simp: digit_value_def digit_char_def)
qed

lemma parse_nat_snoc: "parse_nat (cs @ [c]) = 10 * parse_nat cs + digit_value c"
  by (simp add: parse_nat_def)

lemma parse_nat_Number_toString: "parse_nat (Number_toString n) = n"
proof (induction n rule: Number_toString.induct)
  case (1 n)
  show ?case
  proof (cases "n < 10")
    case True
    then show ?thesis
      by (simp add: Number_toString.simps [of n] parse_nat_def digit_value_digit_char)
  next
    case False
    with 1 have "parse_nat (Number_toString (n div 10)) = n div 10" by simp
    with False show ?thesis
      by (simp add: Number_toString.simps [of n] parse_nat_snoc digit_value_digit_char)
  qed
qed

lemma Number_toString_inj: "Number_toString m = Number_toString n \<Longrightarrow> m = n"
  by (metis parse_nat_Number_toString)

lemma is_digit_digit_char: "d < 10 \<Longrightarrow> is_digit (digit_char d)"
proof -
  assume "d < 10"
  then have "d \<in> {0, 1, 2, 3, 4, 5, 6, 7, 8, 9}" by auto
  then show ?thesis
    by (auto simp: is_digit_def digit_char_def)
qed

lemma Number_toString_digits: "list_all is_digit (Number_toString n)"
proof (induction n rule: Number_toString.induct)
  case (1 n)
  show ?case
  proof (cases "n < 10")
    case True
    then show ?thesis
      by (simp add: Number_toString.simps [of n] is_digit_digit_char)
  next
    case False
    with 1 show ?thesis
      by (simp add: Number_toString.simps [of n] is_digit_digit_char)
  qed
qed

lemma length_Number_toString: "n < 10 ^ w \<Longrightarrow> 0 < w \<Longrightarrow> length (Number_toString n) \<le> w"
proof (induction n arbitrary: w rule: Number_toString.induct)
  case (1 n)
  show ?case
  proof (cases "n < 10")
    case True
    with \<open>0 < w\<close> show ?thesis
      by (simp add: Number_toString.simps [of n] Suc_leI)
  next
    case False
    obtain v where w: "w = Suc v" using \<open>0 < w\<close> by (cases w) auto
    have "v \<noteq> 0"
    proof
      assume "v = 0"
      with w \<open>n < 10 ^ w\<close> False show False by simp
    qed
    moreover have "n div 10 < 10 ^ v"
      using \<open>n < 10 ^ w\<close> w by (simp add: less_mult_imp_div_less mult.commute)
    ultimately have "length (Number_toString (n div 10)) \<le> v"
      using "1.IH" [of v] False by simp
    with False w show ?thesis
      by (simp add: Number_toString.simps [of n])
  qed
qed

lemma parse_nat_zeros: "parse_nat (replicate k (CHR ''0'') @ ds) = parse_nat ds"
proof -
  have "foldl (\<lambda>a c. 10 * a + digit_value c) 0 (replicate k (CHR ''0'')) = 0"
    by (induction k) (simp_all add: digit_value_def)
  then show ?thesis by (simp add: parse_nat_def)
qed

lemma pad_props:
  assumes "0 \<le> n" and "n < 10 ^ w" and "0 < w"
  shows "length (pad w n) = w" and "list_all is_digit (pad w n)"
    and "int (parse_nat (pad w n)) = n"
proof -
  have "nat n < 10 ^ w"
    using assms(1,2) by (simp add: nat_less_iff)
  then have len: "length (Number_toString (nat n)) \<le> w"
    using assms(3) by (rule length_Number_toString)
  then show "length (pad w n) = w"
    by (simp add: pad_def Let_def)
  have "is_digit (CHR ''0'')" by (simp add: is_digit_def)
  then have "list_all is_digit (replicate k (CHR ''0''))" for k
    by (induction k) simp_all
  then show "list_all is_digit (pad w n)"
    by (simp add: pad_def Let_def Number_toString_digits)
  show "int (parse_nat (pad w n)) = n"
    using assms(1) by (simp add: pad_def Let_def parse_nat_zeros parse_nat_Number_toString)
qed

lemma digits_pad:
  assumes "0 \<le> n" and "n < 10 ^ w" and "0 < w"
  shows "digits w (pad w n @ rest) = Some (n, rest)"
  using pad_props [OF assms] by (simp add: digits_def)

lemma expect_Cons: "expect c (c # cs) = Some cs"
  by (simp add: expect_def)

lemma year_digits_year_string:
  assumes "0 \<le> y" and "y < 1000000"
  shows "year_digits (year_string y @ rest) = Some (y, rest)"
proof (cases "y \<le> 9999")
  case True
  then have small: "y < 10 ^ 4" by simp
  have len: "length (pad 4 y) = 4" and dig: "list_all is_digit (pad 4 y)"
    using pad_props [OF assms(1) small] by simp_all
  from len obtain c cs where cs: "pad 4 y = c # cs"
    by (cases "pad 4 y") auto
  with dig have "is_digit c" by simp
  then have "c \<noteq> CHR ''+''" and "c \<noteq> CHR ''-''"
    by (auto simp: is_digit_def)
  moreover have "digits 4 (pad 4 y @ rest) = Some (y, rest)"
    using digits_pad [OF assms(1) small] by simp
  ultimately show ?thesis
    using True assms(1) cs by (simp add: year_digits_def year_string_def)
next
  case False
  have "y < 10 ^ 6" using assms(2) by simp
  with assms(1) have "digits 6 (pad 6 y @ rest) = Some (y, rest)"
    by (simp add: digits_pad)
  with False assms(1) show ?thesis
    by (simp add: year_digits_def year_string_def)
qed

subsection \<open>Years, months and days\<close>

lemma div_Suc_int:
  fixes x k :: int
  assumes "0 < k"
  shows "(x + 1) div k = x div k + (if (x + 1) mod k = 0 then 1 else 0)"
proof (cases "(x + 1) mod k = 0")
  case True
  then have "k dvd x + 1" by (simp add: dvd_eq_mod_eq_0)
  then obtain q where q: "x + 1 = k * q" by (auto simp: dvd_def)
  then have x: "x = k * (q - 1) + (k - 1)" by (simp add: algebra_simps)
  have "x div k = q - 1"
    using assms by (subst x) (simp add: div_pos_pos_trivial)
  moreover have "(x + 1) div k = q" using q assms by simp
  ultimately show ?thesis using True by simp
next
  case False
  have "x mod k + 1 < k"
  proof -
    have "x mod k < k" using assms by simp
    moreover have "x mod k \<noteq> k - 1"
    proof
      assume "x mod k = k - 1"
      then have "(x mod k + 1) mod k = 0" by simp
      then have "(x + 1) mod k = 0" by (simp add: mod_add_left_eq)
      with False show False by simp
    qed
    ultimately show ?thesis by linarith
  qed
  moreover have "0 \<le> x mod k" using assms by simp
  ultimately have "(x mod k + 1) div k = 0" by (simp add: div_pos_pos_trivial)
  moreover have "x + 1 = k * (x div k) + (x mod k + 1)" by simp
  ultimately have "(x + 1) div k = x div k"
    using assms by (metis add.right_neutral div_mult_self2 less_irrefl add.commute)
  with False show ?thesis by simp
qed

lemma DayFromYear_Suc: "DayFromYear (y + 1) = DayFromYear y + DaysInYear y"
proof -
  have m4: "(y - 1969 + 1) mod 4 = 0 \<longleftrightarrow> y mod 4 = 0"
    using mod_mult_self2 [of y 4 "- 492"] by simp
  have m100: "(y - 1901 + 1) mod 100 = 0 \<longleftrightarrow> y mod 100 = 0"
    using mod_mult_self2 [of y 100 "- 19"] by simp
  have m400: "(y - 1601 + 1) mod 400 = 0 \<longleftrightarrow> y mod 400 = 0"
    using mod_mult_self2 [of y 400 "- 4"] by simp
  have m100_4: "y mod 100 = 0 \<Longrightarrow> y mod 4 = 0"
    using mod_mod_cancel [of 4 100 y] by simp
  have m400_100: "y mod 400 = 0 \<Longrightarrow> y mod 100 = 0"
    using mod_mod_cancel [of 100 400 y] by simp
  have a: "(y + 1 - 1969) div 4 = (y - 1969) div 4 + (if y mod 4 = 0 then 1 else 0)"
    using div_Suc_int [of 4 "y - 1969"] m4 by (simp add: algebra_simps)
  have b: "(y + 1 - 1901) div 100 = (y - 1901) div 100 + (if y mod 100 = 0 then 1 else 0)"
    using div_Suc_int [of 100 "y - 1901"] m100 by (simp add: algebra_simps)
  have c: "(y + 1 - 1601) div 400 = (y - 1601) div 400 + (if y mod 400 = 0 then 1 else 0)"
    using div_Suc_int [of 400 "y - 1601"] m400 by (simp add: algebra_simps)
  show ?thesis
    unfolding DayFromYear_def DaysInYear_def a b c
    using m100_4 m400_100 by auto
qed

lemma DaysInYear_leap: "DaysInYear y = 365 + InLeapYear y"
  by (simp add: InLeapYear_def DaysInYear_def)

lemma InLeapYear_cases: "InLeapYear y = 0 \<or> InLeapYear y = 1"
  by (simp add: InLeapYear_def)

lemma DayFromYear_1970: "DayFromYear 1970 = 0"
  by (simp add: DayFromYear_def)

lemma DayFromYear_lower: "365 * int n \<le> DayFromYear (1970 + int n)"
proof (induction n)
  case 0
  show ?case by (simp add: DayFromYear_1970)
next
  case (Suc n)
  have "DayFromYear (1970 + int (Suc n)) = DayFromYear (1970 + int n) + DaysInYear (1970 + int n)"
    using DayFromYear_Suc [of "1970 + int n"] by (simp add: algebra_simps)
  moreover have "365 \<le> DaysInYear (1970 + int n)"
    using InLeapYear_cases [of "1970 + int n"] by (auto simp: DaysInYear_leap)
  ultimately show ?case using Suc by simp
qed

lemma year_down_le: "year_down d y \<le> y"
proof (induction d y rule: year_down.induct)
  case (1 d y)
  then show ?case
    by (cases "DayFromYear y \<le> d") (simp_all add: year_down.simps [of d y])
qed

lemma year_down_start: "DayFromYear (year_down d y) \<le> d"
proof (induction d y rule: year_down.induct)
  case (1 d y)
  then show ?case
    by (cases "DayFromYear y \<le> d") (simp_all add: year_down.simps [of d y])
qed

lemma year_down_next: "d < DayFromYear (y + 1) \<Longrightarrow> d < DayFromYear (year_down d y + 1)"
proof (induction d y rule: year_down.induct)
  case (1 d y)
  then show ?case
    by (cases "DayFromYear y \<le> d") (simp_all add: year_down.simps [of d y])
qed

lemma year_down_ge: "y' \<le> y \<Longrightarrow> DayFromYear y' \<le> d \<Longrightarrow> y' \<le> year_down d y"
proof (induction d y rule: year_down.induct)
  case (1 d y)
  show ?case
  proof (cases "DayFromYear y \<le> d")
    case True
    with "1.prems" show ?thesis by (simp add: year_down.simps [of d y])
  next
    case False
    with "1.prems" have "y' \<noteq> y" by auto
    with "1.prems" have "y' \<le> y - 1" by simp
    with 1 False show ?thesis by (simp add: year_down.simps [of d y])
  qed
qed

lemma YearFromDay_props:
  assumes "0 \<le> d"
  shows "1970 \<le> YearFromDay d" and "YearFromDay d \<le> 1970 + d div 365"
    and "DayFromYear (YearFromDay d) \<le> d"
    and "d < DayFromYear (YearFromDay d) + DaysInYear (YearFromDay d)"
proof -
  define y0 where "y0 = 1970 + d div 365"
  have y: "YearFromDay d = year_down d y0"
    using assms by (simp add: YearFromDay_def y0_def)
  have "0 \<le> d div 365" using assms by simp
  then have y0: "1970 \<le> y0" by (simp add: y0_def)
  then show "1970 \<le> YearFromDay d"
    unfolding y using assms by (intro year_down_ge) (simp_all add: DayFromYear_1970)
  show "YearFromDay d \<le> 1970 + d div 365"
    unfolding y y0_def [symmetric] by (rule year_down_le)
  show "DayFromYear (YearFromDay d) \<le> d"
    unfolding y by (rule year_down_start)
  have "365 * int (nat (d div 365 + 1)) \<le> DayFromYear (1970 + int (nat (d div 365 + 1)))"
    by (rule DayFromYear_lower)
  moreover have "int (nat (d div 365 + 1)) = d div 365 + 1"
    using \<open>0 \<le> d div 365\<close> by simp
  ultimately have "365 * (d div 365 + 1) \<le> DayFromYear (y0 + 1)"
    by (simp add: y0_def algebra_simps)
  moreover have "d < 365 * (d div 365 + 1)"
    using div_mult_mod_eq [of d 365] pos_mod_bound [of 365 d] by (simp add: algebra_simps)
  ultimately have "d < DayFromYear (y0 + 1)" by simp
  then have "d < DayFromYear (year_down d y0 + 1)" by (rule year_down_next)
  then show "d < DayFromYear (YearFromDay d) + DaysInYear (YearFromDay d)"
    unfolding y by (simp add: DayFromYear_Suc)
qed

lemma month_date_props:
  assumes "leap = 0 \<or> leap = 1" and "0 \<le> n" and "n < 365 + leap"
  shows "0 \<le> MonthFromDay leap n" and "MonthFromDay leap n \<le> 11"
    and "1 \<le> DateFromDay leap n"
    and "DateFromDay leap n \<le> DaysInMonth leap (MonthFromDay leap n + 1)"
    and "DaysBeforeMonth leap (MonthFromDay leap n + 1) + DateFromDay leap n - 1 = n"
  using assms
  by (auto simp: MonthFromDay_def DateFromDay_def DaysInMonth_def DaysBeforeMonth_def Let_def)

lemma DaysInMonth_le: "leap = 0 \<or> leap = 1 \<Longrightarrow> DaysInMonth leap m \<le> 31"
  by (auto simp: DaysInMonth_def)

lemma time_of_day_props:
  fixes r :: int
  assumes "0 \<le> r" and "r < 86400000"
  shows "0 \<le> r div 3600000" and "r div 3600000 \<le> 23"
    and "0 \<le> r div 60000 mod 60" and "r div 60000 mod 60 \<le> 59"
    and "0 \<le> r div 1000 mod 60" and "r div 1000 mod 60 \<le> 59"
    and "0 \<le> r mod 1000" and "r mod 1000 \<le> 999"
    and "r div 3600000 * 3600000 + r div 60000 mod 60 * 60000 + r div 1000 mod 60 * 1000
         + r mod 1000 = r"
proof -
  define a where "a = r div 1000"
  define b where "b = a div 60"
  define h where "h = b div 60"
  have b: "r div 60000 = b"
    using zdiv_zmult2_eq [of 60 r 1000] by (simp add: a_def b_def)
  have h: "r div 3600000 = h"
    using zdiv_zmult2_eq [of 60 r 60000] b by (simp add: h_def)
  have r: "r = 1000 * a + r mod 1000" by (simp add: a_def)
  have a: "a = 60 * b + a mod 60" by (simp add: b_def)
  have b': "b = 60 * h + b mod 60" by (simp add: h_def)
  have m1: "0 \<le> r mod 1000" "r mod 1000 < 1000" by simp_all
  have m2: "0 \<le> a mod 60" "a mod 60 < 60" by simp_all
  have m3: "0 \<le> b mod 60" "b mod 60 < 60" by simp_all
  show "0 \<le> r div 3600000" using assms(1) by (simp add: pos_imp_zdiv_nonneg_iff)
  show "r div 3600000 \<le> 23"
    unfolding h using r a b' m1 m2 m3 assms(2) by linarith
  show "0 \<le> r div 60000 mod 60" "r div 60000 mod 60 \<le> 59"
    unfolding b using m3 by simp_all
  show "0 \<le> r div 1000 mod 60" "r div 1000 mod 60 \<le> 59"
    unfolding a_def [symmetric] using m2 by simp_all
  show "0 \<le> r mod 1000" "r mod 1000 \<le> 999" using m1 by simp_all
  show "r div 3600000 * 3600000 + r div 60000 mod 60 * 60000 + r div 1000 mod 60 * 1000
         + r mod 1000 = r"
    unfolding h b a_def [symmetric] using r a b' by linarith
qed

subsection \<open>A rendered time value reads back\<close>

lemma parse_iso_fields:
  assumes y: "0 \<le> y" "y < 1000000"
    and mo: "0 \<le> mo" "mo < 100" and d: "0 \<le> d" "d < 100"
    and h: "0 \<le> h" "h < 100" and mi: "0 \<le> mi" "mi < 100"
    and sec: "0 \<le> sec" "sec < 100" and ms: "0 \<le> ms" "ms < 1000"
  shows "parse_iso (year_string y @ ''-'' @ pad 2 mo @ ''-'' @ pad 2 d @ ''T''
           @ pad 2 h @ '':'' @ pad 2 mi @ '':'' @ pad 2 sec @ ''.'' @ pad 3 ms @ ''Z'')
         = iso_time_value y mo d h mi sec ms"
proof -
  have two: "0 \<le> n \<Longrightarrow> n < 100 \<Longrightarrow> digits 2 (pad 2 n @ rest) = Some (n, rest)" for n rest
    using digits_pad [of n 2 rest] by simp
  have three: "digits 3 (pad 3 ms @ rest) = Some (ms, rest)" for rest
    using digits_pad [of ms 3 rest] ms by simp
  show ?thesis
    unfolding parse_iso_def
    by (simp add: year_digits_year_string [OF y] two three expect_Cons mo d h mi sec)
qed

lemma parse_iso_toISOString:
  assumes "t \<le> 8640000000000000"
  shows "parse_iso (toISOString (Date (int t))) = Some (int t)"
proof -
  define dy where "dy = Day (int t)"
  define r where "r = TimeWithinDay (int t)"
  define y where "y = YearFromDay dy"
  define leap where "leap = InLeapYear y"
  define n where "n = dy - DayFromYear y"
  define mo where "mo = MonthFromDay leap n + 1"
  define d where "d = DateFromDay leap n"
  have t: "int t = dy * 86400000 + r"
    by (simp add: dy_def r_def Day_def TimeWithinDay_def msPerDay_def)
  have r: "0 \<le> r" "r < 86400000"
    by (simp_all add: r_def TimeWithinDay_def msPerDay_def)
  have dy: "0 \<le> dy" by (simp add: dy_def Day_def msPerDay_def pos_imp_zdiv_nonneg_iff)
  have "int t \<le> 8640000000000000" using assms by simp
  then have "dy \<le> 8640000000000000 div 86400000"
    unfolding dy_def Day_def msPerDay_def by (intro zdiv_mono1) simp_all
  then have dy_le: "dy \<le> 100000000" by simp
  note yp = YearFromDay_props [OF dy, folded y_def]
  have "dy div 365 \<le> 100000000 div 365"
    using dy_le by (intro zdiv_mono1) simp_all
  with yp(1,2) have y: "0 \<le> y" "y < 1000000" by simp_all
  have leap: "leap = 0 \<or> leap = 1"
    unfolding leap_def by (rule InLeapYear_cases)
  have n: "0 \<le> n" "n < 365 + leap"
    using yp(3,4) by (simp_all add: n_def leap_def DaysInYear_leap)
  note md = month_date_props [OF leap n, folded mo_def d_def]
  have mo: "1 \<le> mo" "mo \<le> 12" using md(1,2) by (simp_all add: mo_def)
  have d: "1 \<le> d" "d \<le> DaysInMonth leap mo" using md(3,4) by (simp_all add: mo_def)
  have d31: "d \<le> 31" using d(2) DaysInMonth_le [OF leap, of mo] by simp
  have day: "DayFromYear y + DaysBeforeMonth leap mo + d - 1 = dy"
    using md(5) by (simp add: n_def mo_def)
  define hh where "hh = r div 3600000"
  define mi where "mi = r div 60000 mod 60"
  define sec where "sec = r div 1000 mod 60"
  define ms where "ms = r mod 1000"
  note tp = time_of_day_props [OF r, folded hh_def mi_def sec_def ms_def]
  have "toISOString (Date (int t))
        = year_string y @ ''-'' @ pad 2 mo @ ''-'' @ pad 2 d @ ''T''
          @ pad 2 hh @ '':'' @ pad 2 mi @ '':'' @ pad 2 sec @ ''.'' @ pad 3 ms @ ''Z''"
    by (simp add: toISOString_def Let_def dy_def r_def y_def leap_def n_def mo_def d_def
        hh_def mi_def sec_def ms_def)
  also have "parse_iso \<dots> = iso_time_value y mo d hh mi sec ms"
  proof (rule parse_iso_fields)
    show "0 \<le> y" "y < 1000000" by (fact y)+
    show "0 \<le> mo" "mo < 100" using mo by simp_all
    show "0 \<le> d" "d < 100" using d(1) d31 by simp_all
    show "0 \<le> hh" "hh < 100" using tp(1,2) by simp_all
    show "0 \<le> mi" "mi < 100" using tp(3,4) by simp_all
    show "0 \<le> sec" "sec < 100" using tp(5,6) by simp_all
    show "0 \<le> ms" "ms < 1000" using tp(7,8) by simp_all
  qed
  also have "\<dots> = Some ((DayFromYear y + DaysBeforeMonth leap mo + d - 1) * msPerDay
                       + hh * 3600000 + mi * 60000 + sec * 1000 + ms)"
    using mo d tp(2,4,6) by (simp add: iso_time_value_def Let_def leap_def [symmetric])
  also have "(DayFromYear y + DaysBeforeMonth leap mo + d - 1) * msPerDay
               + hh * 3600000 + mi * 60000 + sec * 1000 + ms
             = dy * 86400000 + (hh * 3600000 + mi * 60000 + sec * 1000 + ms)"
    by (simp only: day msPerDay_def)
  also have "\<dots> = int t"
    by (simp only: tp(9) t)
  finally show ?thesis .
qed

subsection \<open>What each operation sends and returns\<close>

lemma generateStreamingUrl_sent:
  "sent (snd (generateStreamingUrl this w trackId options s)) =
     sent s @ [S3_getSignedUrl ''getObject''
       \<lparr> get_Bucket = bucketName this,
         get_Key = storage_key trackId (effective_quality options) (effective_format options),
         Expires = 3600,
         ResponseContentType = ''audio/'' @ format_str (effective_format options),
         ResponseCacheControl = ''max-age=3600'' \<rparr>]"
  by (simp add: generateStreamingUrl_def send_def logger_error_def storage_key_def
      effective_quality_def effective_format_def Let_def
      split: option.split sum.split)

lemma generateStreamingUrl_result:
  "fst (generateStreamingUrl this w trackId options s) =
     s3_getSignedUrl w ''getObject''
       \<lparr> get_Bucket = bucketName this,
         get_Key = storage_key trackId (effective_quality options) (effective_format options),
         Expires = 3600,
         ResponseContentType = ''audio/'' @ format_str (effective_format options),
         ResponseCacheControl = ''max-age=3600'' \<rparr>"
  by (simp add: generateStreamingUrl_def send_def logger_error_def storage_key_def
      effective_quality_def effective_format_def Let_def
      split: option.split sum.split)

lemma generateCDNStreamingUrl_eq:
  "generateCDNStreamingUrl this trackId options s =
     (Inr (''https://'' @ template (cdnDomain this) @ ''/''
           @ storage_key trackId (effective_quality options) (effective_format options)), s)"
  by (simp add: generateCDNStreamingUrl_def storage_key_def
      effective_quality_def effective_format_def Let_def split: option.split)

lemma invalidateCDNCache_sent:
  "sent (snd (invalidateCDNCache this w paths s)) =
     sent s @ [CloudFront_createInvalidation
       \<lparr> DistributionId = configService this ''CLOUDFRONT_DISTRIBUTION_ID'',
         InvalidationBatch =
           \<lparr> CallerReference = ''invalidation-'' @ Number_toString (clock w (reads s)),
             batch_Paths =
               \<lparr> Quantity = length paths, Items = map ((#) CHR ''/'') paths \<rparr> \<rparr> \<rparr>]"
  by (simp add: invalidateCDNCache_def Date_now_def send_def logger_error_def logger_log_def
      Let_def split: sum.split)

lemma invalidateCDNCache_result:
  "fst (invalidateCDNCache this w paths s) =
     cloudFront_createInvalidation w
       \<lparr> DistributionId = configService this ''CLOUDFRONT_DISTRIBUTION_ID'',
         InvalidationBatch =
           \<lparr> CallerReference = ''invalidation-'' @ Number_toString (clock w (reads s)),
             batch_Paths =
               \<lparr> Quantity = length paths, Items = map ((#) CHR ''/'') paths \<rparr> \<rparr> \<rparr>"
  by (simp add: invalidateCDNCache_def Date_now_def send_def logger_error_def logger_log_def
      Let_def split: sum.split)

lemma uploadAudioFile_sent:
  "sent (snd (uploadAudioFile this w file k contentType s)) =
     sent s @ [S3_upload
       \<lparr> Bucket = bucketName this, Key = k, Body = file,
         ContentType = (case contentType of None \<Rightarrow> ''audio/mpeg'' | Some c \<Rightarrow> c),
         CacheControl = ''max-age=31536000'',
         Metadata = [(''uploaded-at'', toISOString (Date (int (clock w (reads s)))))] \<rparr>]"
  by (simp add: uploadAudioFile_def new_Date_def Date_now_def send_def logger_error_def
      Let_def split: sum.split)

lemma uploadAudioFile_failure:
  "s3_upload w
       \<lparr> Bucket = bucketName this, Key = k, Body = file,
         ContentType = (case contentType of None \<Rightarrow> ''audio/mpeg'' | Some c \<Rightarrow> c),
         CacheControl = ''max-age=31536000'',
         Metadata = [(''uploaded-at'', toISOString (Date (int (clock w (reads s)))))] \<rparr> = Inl e
   \<Longrightarrow> fst (uploadAudioFile this w file k contentType s) = Inl e"
  by (simp add: uploadAudioFile_def new_Date_def Date_now_def send_def logger_error_def
      Let_def split: sum.split)

lemma getStreamingMetrics_sent:
  "sent (snd (getStreamingMetrics this w trackId s)) =
     sent s @ [CloudWatch_getMetricStatistics
       \<lparr> MetricName = ''BytesDownloaded'', Namespace = ''AWS/CloudFront'',
         StartTime = Date (int (clock w (reads s)) - 86400000),
         EndTime = Date (int (clock w (Suc (reads s)))),
         Period = 3600, Statistics = [''Sum'', ''Average''],
         Dimensions =
           [\<lparr> dim_Name = ''DistributionId'',
              dim_Value = configService this ''CLOUDFRONT_DISTRIBUTION_ID'' \<rparr>] \<rparr>]"
  by (simp add: getStreamingMetrics_def new_Date_def Date_now_def send_def logger_error_def
      Let_def split: sum.split)

lemma getStreamingMetrics_result:
  "fst (getStreamingMetrics this w trackId s) =
     (case cloudWatch_getMetricStatistics w
       \<lparr> MetricName = ''BytesDownloaded'', Namespace = ''AWS/CloudFront'',
         StartTime = Date (int (clock w (reads s)) - 86400000),
         EndTime = Date (int (clock w (Suc (reads s)))),
         Period = 3600, Statistics = [''Sum'', ''Average''],
         Dimensions =
           [\<lparr> dim_Name = ''DistributionId'',
              dim_Value = configService this ''CLOUDFRONT_DISTRIBUTION_ID'' \<rparr>] \<rparr>
      of Inl e \<Rightarrow> Inr None | Inr metrics \<Rightarrow> Inr (Some metrics))"
  by (simp add: getStreamingMetrics_def new_Date_def Date_now_def send_def logger_error_def
      Let_def split: sum.split)

lemma caller_references_invalidateCDNCache:
  "caller_references (snd (invalidateCDNCache this w paths s)) =
     caller_references s @ [''invalidation-'' @ Number_toString (clock w (reads s))]"
  by (simp add: caller_references_def invalidateCDNCache_sent List.map_filter_def)

lemma invalidateCDNCache_reads:
  "reads (snd (invalidateCDNCache this w paths s)) = Suc (reads s)"
  by (simp add: invalidateCDNCache_def Date_now_def send_def logger_error_def logger_log_def
      Let_def split: sum.split)

lemma sample_time: "toISOString (Date 1700000000000) = ''2023-11-14T22:13:20.000Z''"
  by code_simp

subsection \<open>Storage keys and streaming URLs\<close>

text \<open>
  C1. For every track id, quality and format, the signed-URL request of
  \<open>generateStreamingUrl\<close> carries the key \<open>tracks/{trackId}/{quality}.{format}\<close>, a
  function of these three values alone, and \<open>generateCDNStreamingUrl\<close> returns
  \<open>https://{cdnDomain}/\<close> followed by that same key.
\<close>

theorem storage_key_agreement:
  "(\<exists>p. sent (snd (generateStreamingUrl this w trackId
              (Some \<lparr> quality = Some q, format = Some f, bitrate = b \<rparr>) s))
          = sent s @ [S3_getSignedUrl ''getObject'' p]
        \<and> get_Key p = storage_key trackId q f)
   \<and> generateCDNStreamingUrl this trackId
         (Some \<lparr> quality = Some q, format = Some f, bitrate = b \<rparr>) s'
       = (Inr (''https://'' @ template (cdnDomain this) @ ''/'' @ storage_key trackId q f), s')
   \<and> storage_key trackId q f
       = ''tracks/'' @ trackId @ ''/'' @ quality_str q @ ''.'' @ format_str f"
  by (simp add: generateStreamingUrl_sent generateCDNStreamingUrl_eq
      effective_quality_def effective_format_def storage_key_def)

text \<open>
  C2. Called without options, or with options that leave the quality or the format out,
  \<open>generateStreamingUrl\<close> behaves as if the quality were medium and the format mp3: the
  call is the same as the one with the default written out, and without options the key
  ends in \<open>medium.mp3\<close> and the content type is \<open>audio/mp3\<close>.
\<close>

theorem generateStreamingUrl_defaults:
  "generateStreamingUrl this w trackId None s
     = generateStreamingUrl this w trackId
         (Some \<lparr> quality = Some medium, format = Some mp3, bitrate = b \<rparr>) s
   \<and> generateStreamingUrl this w trackId
         (Some \<lparr> quality = None, format = fo, bitrate = b \<rparr>) s
     = generateStreamingUrl this w trackId
         (Some \<lparr> quality = Some medium, format = fo, bitrate = b \<rparr>) s
   \<and> generateStreamingUrl this w trackId
         (Some \<lparr> quality = qo, format = None, bitrate = b \<rparr>) s
     = generateStreamingUrl this w trackId
         (Some \<lparr> quality = qo, format = Some mp3, bitrate = b \<rparr>) s
   \<and> (\<exists>p. sent (snd (generateStreamingUrl this w trackId None s))
            = sent s @ [S3_getSignedUrl ''getObject'' p]
          \<and> get_Key p = ''tracks/'' @ trackId @ ''/medium.mp3''
          \<and> ResponseContentType p = ''audio/mp3'')"
  by (simp add: generateStreamingUrl_sent effective_quality_def effective_format_def
      storage_key_def)
    (simp add: generateStreamingUrl_def)

text \<open>
  C6. For every track id and options, the signed-URL request has expiry 3600, response
  content type \<open>audio/{format}\<close>, response cache-control \<open>max-age=3600\<close> and the key
  \<open>tracks/{trackId}/{quality}.{format}\<close>, and the operation returns what the signer
  answers to that request. For track123, high, flac the key is
  \<open>tracks/track123/high.flac\<close> and the content type \<open>audio/flac\<close>.
\<close>

theorem signed_url_request:
  "(\<exists>p. sent (snd (generateStreamingUrl this w trackId options s))
          = sent s @ [S3_getSignedUrl ''getObject'' p]
        \<and> fst (generateStreamingUrl this w trackId options s)
          = s3_getSignedUrl w ''getObject'' p
        \<and> Expires p = 3600
        \<and> ResponseContentType p = ''audio/'' @ format_str (effective_format options)
        \<and> ResponseCacheControl p = ''max-age=3600''
        \<and> get_Key p
          = storage_key trackId (effective_quality options) (effective_format options))
   \<and> (\<exists>p. sent (snd (generateStreamingUrl this w ''track123''
                (Some \<lparr> quality = Some high, format = Some flac, bitrate = None \<rparr>) s))
          = sent s @ [S3_getSignedUrl ''getObject'' p]
        \<and> Expires p = 3600
        \<and> ResponseContentType p = ''audio/flac''
        \<and> get_Key p = ''tracks/track123/high.flac'')"
  by (simp add: generateStreamingUrl_sent generateStreamingUrl_result
      effective_quality_def effective_format_def storage_key_def)

text \<open>
  C8. \<open>generateCDNStreamingUrl\<close> always returns a URL: for every track id and options the
  result is a string, never an error, and nothing is sent, logged or read from the clock.
\<close>

theorem generateCDNStreamingUrl_total:
  "\<exists>u. generateCDNStreamingUrl this trackId options s = (Inr u, s)"
  by (simp add: generateCDNStreamingUrl_eq)

subsection \<open>Uploads\<close>

text \<open>
  C5. For every payload, key and content type, the put request of \<open>uploadAudioFile\<close>
  has the cache-control \<open>max-age=31536000\<close> and, as only metadata, the field
  \<open>uploaded-at\<close> with the clock reading of the call rendered by \<open>toISOString\<close>. That
  value is an ISO-8601 UTC date-time which reads back as the very millisecond of the
  reading, for every reading a \<open>Date\<close> can hold (up to 8.64e15 milliseconds).
\<close>

theorem upload_request_headers:
  "\<exists>r stamp.
     sent (snd (uploadAudioFile this w file k contentType s)) = sent s @ [S3_upload r]
     \<and> Key r = k \<and> Body r = file
     \<and> CacheControl r = ''max-age=31536000''
     \<and> Metadata r = [(''uploaded-at'', stamp)]
     \<and> stamp = toISOString (Date (int (clock w (reads s))))
     \<and> (clock w (reads s) \<le> 8640000000000000
          \<longrightarrow> parse_iso stamp = Some (int (clock w (reads s))))"
  by (simp add: uploadAudioFile_sent parse_iso_toISOString)

theorem upload_request_headers_witness:
  "clock world_up (reads state0) \<le> 8640000000000000
   \<and> (\<exists>r. sent (snd (uploadAudioFile sample_service world_up [1, 2, 3]
                        ''tracks/t1/medium.mp3'' None state0)) = [S3_upload r]
          \<and> CacheControl r = ''max-age=31536000''
          \<and> Metadata r = [(''uploaded-at'', ''2023-11-14T22:13:20.000Z'')]
          \<and> parse_iso ''2023-11-14T22:13:20.000Z'' = Some 1700000000000)"
proof -
  have c: "clock world_up (reads state0) = 1700000000000"
    by (simp add: world_up_def state0_def)
  have s: "sent state0 = []"
    by (simp add: state0_def)
  have le: "clock world_up (reads state0) \<le> 8640000000000000"
    by (simp add: c)
  from upload_request_headers [of sample_service world_up "[1, 2, 3]"
      "''tracks/t1/medium.mp3''" None state0]
  obtain r where
    "sent (snd (uploadAudioFile sample_service world_up [1, 2, 3]
                  ''tracks/t1/medium.mp3'' None state0)) = sent state0 @ [S3_upload r]"
    "CacheControl r = ''max-age=31536000''"
    "Metadata r = [(''uploaded-at'', toISOString (Date (int (clock world_up (reads state0)))))]"
    "clock world_up (reads state0) \<le> 8640000000000000
     \<longrightarrow> parse_iso (toISOString (Date (int (clock world_up (reads state0)))))
         = Some (int (clock world_up (reads state0)))"
    by auto
  with le have
    "sent (snd (uploadAudioFile sample_service world_up [1, 2, 3]
                  ''tracks/t1/medium.mp3'' None state0)) = [S3_upload r]
     \<and> CacheControl r = ''max-age=31536000''
     \<and> Metadata r = [(''uploaded-at'', ''2023-11-14T22:13:20.000Z'')]
     \<and> parse_iso ''2023-11-14T22:13:20.000Z'' = Some 1700000000000"
    by (simp add: c s sample_time)
  with le show ?thesis by blast
qed

subsection \<open>Cache invalidation\<close>

text \<open>
  C3, as the code has it. For every list of paths the invalidation batch has a quantity
  equal to the length of the list and, as items, the paths in order, each with one \<open>/\<close>
  put in front, whatever the path starts with: \<open>a/b\<close> and \<open>c\<close> give \<open>/a/b\<close> and \<open>/c\<close>.
\<close>

theorem invalidation_paths_prefixed:
  "(\<exists>r. sent (snd (invalidateCDNCache this w paths s))
          = sent s @ [CloudFront_createInvalidation r]
        \<and> Quantity (batch_Paths (InvalidationBatch r)) = length paths
        \<and> Items (batch_Paths (InvalidationBatch r)) = map (\<lambda>path. ''/'' @ path) paths
        \<and> length (Items (batch_Paths (InvalidationBatch r))) = length paths)
   \<and> (\<exists>r. sent (snd (invalidateCDNCache this w [''a/b'', ''c''] s))
          = sent s @ [CloudFront_createInvalidation r]
        \<and> Quantity (batch_Paths (InvalidationBatch r)) = 2
        \<and> Items (batch_Paths (InvalidationBatch r)) = [''/a/b'', ''/c''])"
  by (simp add: invalidateCDNCache_sent)

text \<open>
  C3 as stated fails: a path that already starts with \<open>/\<close> is prefixed again, so
  \<open>/a/b\<close> goes out as \<open>//a/b\<close>.
\<close>

theorem invalidation_double_prefix:
  "sent (snd (invalidateCDNCache sample_service world_up [''/a/b''] state0))
     = [CloudFront_createInvalidation
         \<lparr> DistributionId = Some ''E123'',
           InvalidationBatch =
             \<lparr> CallerReference = ''invalidation-1700000000000'',
               batch_Paths = \<lparr> Quantity = 1, Items = [''//a/b''] \<rparr> \<rparr> \<rparr>]"
  by (simp add: invalidateCDNCache_sent sample_service_def constructor_def world_up_def
      state0_def Number_toString.simps digit_char_def)

text \<open>
  C10. An empty list of paths is not rejected and not short-circuited: one invalidation
  request goes out, with quantity 0 and no items, and the operation returns what the CDN
  answers to it.
\<close>

theorem invalidation_of_no_paths:
  "\<exists>r. sent (snd (invalidateCDNCache this w [] s))
          = sent s @ [CloudFront_createInvalidation r]
       \<and> fst (invalidateCDNCache this w [] s) = cloudFront_createInvalidation w r
       \<and> Quantity (batch_Paths (InvalidationBatch r)) = 0
       \<and> Items (batch_Paths (InvalidationBatch r)) = []"
  by (simp add: invalidateCDNCache_sent invalidateCDNCache_result)

text \<open>
  C7, as the code has it. The caller-reference of a call is \<open>invalidation-\<close> followed by
  the epoch milliseconds read from the clock during the call, and two calls carry the
  same caller-reference exactly when their clock readings are equal.
\<close>

theorem caller_reference_from_clock:
  "caller_references (snd (invalidateCDNCache this w paths s))
     = caller_references s @ [''invalidation-'' @ Number_toString (clock w (reads s))]
   \<and> (last (caller_references (snd (invalidateCDNCache this w paths s)))
        = last (caller_references (snd (invalidateCDNCache this' w' paths' s')))
      \<longleftrightarrow> clock w (reads s) = clock w' (reads s'))"
  by (auto simp: caller_references_invalidateCDNCache dest: Number_toString_inj)

theorem caller_reference_from_clock_witness:
  "last (caller_references
          (snd (invalidateCDNCache sample_service world_up [''b'']
             (snd (invalidateCDNCache sample_service world_up [''a''] state0)))))
   \<noteq> last (caller_references (snd (invalidateCDNCache sample_service world_up [''a''] state0)))"
proof -
  have "clock world_up (reads (snd (invalidateCDNCache sample_service world_up [''a''] state0)))
        \<noteq> clock world_up (reads state0)"
    by (simp add: invalidateCDNCache_reads world_up_def state0_def)
  with caller_reference_from_clock [of sample_service world_up "[''b'']"
      "snd (invalidateCDNCache sample_service world_up [''a''] state0)"
      sample_service world_up "[''a'']" state0]
  show ?thesis by blast
qed

text \<open>
  C7 as stated fails: two calls that read the clock within the same millisecond send the
  same caller-reference.
\<close>

theorem caller_reference_repeated:
  "caller_references
     (snd (invalidateCDNCache sample_service world_same_ms [''b'']
        (snd (invalidateCDNCache sample_service world_same_ms [''a''] state0))))
   = [''invalidation-1700000000000'', ''invalidation-1700000000000'']"
proof -
  have "caller_references state0 = []"
    by (simp add: caller_references_def state0_def List.map_filter_simps)
  moreover have "clock world_same_ms n = 1700000000000" for n
    by (simp add: world_same_ms_def)
  moreover have "Number_toString 1700000000000 = ''1700000000000''"
    by (simp add: Number_toString.simps digit_char_def)
  ultimately show ?thesis
    by (simp add: caller_references_invalidateCDNCache)
qed

subsection \<open>Failures\<close>

text \<open>
  C4. Each of \<open>uploadAudioFile\<close>, \<open>generateStreamingUrl\<close> and \<open>invalidateCDNCache\<close>
  hands exactly one request to its service, and when the service fails on that request
  with an error, the operation fails with that same error. \<open>getStreamingMetrics\<close> hands
  one query to the metrics backend, returns null when the backend fails on it, and never
  fails itself.
\<close>

theorem errors_propagate_except_metrics:
  "(\<exists>r. sent (snd (uploadAudioFile this w file k contentType s)) = sent s @ [S3_upload r]
        \<and> (s3_upload w r = Inl e
             \<longrightarrow> fst (uploadAudioFile this w file k contentType s) = Inl e))
   \<and> (\<exists>p. sent (snd (generateStreamingUrl this w trackId options s))
            = sent s @ [S3_getSignedUrl ''getObject'' p]
        \<and> (s3_getSignedUrl w ''getObject'' p = Inl e
             \<longrightarrow> fst (generateStreamingUrl this w trackId options s) = Inl e))
   \<and> (\<exists>r. sent (snd (invalidateCDNCache this w paths s))
            = sent s @ [CloudFront_createInvalidation r]
        \<and> (cloudFront_createInvalidation w r = Inl e
             \<longrightarrow> fst (invalidateCDNCache this w paths s) = Inl e))
   \<and> (\<exists>p. sent (snd (getStreamingMetrics this w trackId s))
            = sent s @ [CloudWatch_getMetricStatistics p]
        \<and> (cloudWatch_getMetricStatistics w p = Inl e
             \<longrightarrow> fst (getStreamingMetrics this w trackId s) = Inr None))
   \<and> fst (getStreamingMetrics this w trackId s) \<noteq> Inl e'"
proof (intro conjI)
  show "\<exists>r. sent (snd (uploadAudioFile this w file k contentType s)) = sent s @ [S3_upload r]
          \<and> (s3_upload w r = Inl e
               \<longrightarrow> fst (uploadAudioFile this w file k contentType s) = Inl e)"
    by (simp add: uploadAudioFile_sent uploadAudioFile_failure)
next
  show "\<exists>p. sent (snd (generateStreamingUrl this w trackId options s))
              = sent s @ [S3_getSignedUrl ''getObject'' p]
          \<and> (s3_getSignedUrl w ''getObject'' p = Inl e
               \<longrightarrow> fst (generateStreamingUrl this w trackId options s) = Inl e)"
    by (simp add: generateStreamingUrl_sent generateStreamingUrl_result)
next
  show "\<exists>r. sent (snd (invalidateCDNCache this w paths s))
              = sent s @ [CloudFront_createInvalidation r]
          \<and> (cloudFront_createInvalidation w r = Inl e
               \<longrightarrow> fst (invalidateCDNCache this w paths s) = Inl e)"
    by (simp add: invalidateCDNCache_sent invalidateCDNCache_result)
next
  show "\<exists>p. sent (snd (getStreamingMetrics this w trackId s))
              = sent s @ [CloudWatch_getMetricStatistics p]
          \<and> (cloudWatch_getMetricStatistics w p = Inl e
               \<longrightarrow> fst (getStreamingMetrics this w trackId s) = Inr None)"
    by (simp add: getStreamingMetrics_sent getStreamingMetrics_result)
next
  show "fst (getStreamingMetrics this w trackId s) \<noteq> Inl e'"
    by (simp add: getStreamingMetrics_result split: sum.split)
qed

theorem errors_propagate_except_metrics_witness:
  "fst (uploadAudioFile sample_service world_down [1, 2, 3] ''tracks/t1/medium.mp3'' None state0)
     = Inl outage
   \<and> fst (generateStreamingUrl sample_service world_down ''t1'' None state0) = Inl outage
   \<and> fst (invalidateCDNCache sample_service world_down [''tracks/t1/medium.mp3''] state0)
     = Inl outage
   \<and> fst (getStreamingMetrics sample_service world_down ''t1'' state0) = Inr None"
proof -
  have down: "s3_upload world_down r = Inl outage"
    "s3_getSignedUrl world_down operation p = Inl outage"
    "cloudFront_createInvalidation world_down i = Inl outage"
    "cloudWatch_getMetricStatistics world_down m = Inl outage" for r operation p i m
    by (simp_all add: world_down_def)
  from errors_propagate_except_metrics
    [of sample_service world_down "[1, 2, 3]" "''tracks/t1/medium.mp3''" None state0 outage
      "''t1''" None "[''tracks/t1/medium.mp3'']"]
  show ?thesis
    by (simp only: down simp_thms) blast
qed

subsection \<open>Metrics\<close>

text \<open>
  C9. The metrics query is the same for any two track ids under the same configuration,
  clock and state, and so is the result: metric \<open>BytesDownloaded\<close> in \<open>AWS/CloudFront\<close>,
  from 24 hours before the first clock reading to the second clock reading, period one
  hour, statistics Sum and Average, and the configured distribution id as only dimension.
\<close>

theorem metrics_ignore_trackId:
  "fst (getStreamingMetrics this w trackId s) = fst (getStreamingMetrics this w trackId' s)
   \<and> sent (snd (getStreamingMetrics this w trackId s))
       = sent (snd (getStreamingMetrics this w trackId' s))
   \<and> (\<exists>p. sent (snd (getStreamingMetrics this w trackId s))
            = sent s @ [CloudWatch_getMetricStatistics p]
          \<and> MetricName p = ''BytesDownloaded''
          \<and> Namespace p = ''AWS/CloudFront''
          \<and> getTime (StartTime p) = int (clock w (reads s)) - 24 * 60 * 60 * 1000
          \<and> getTime (EndTime p) = int (clock w (Suc (reads s)))
          \<and> Period p = 60 * 60
          \<and> Statistics p = [''Sum'', ''Average'']
          \<and> Dimensions p
            = [\<lparr> dim_Name = ''DistributionId'',
                 dim_Value = configService this ''CLOUDFRONT_DISTRIBUTION_ID'' \<rparr>])"
  by (simp add: getStreamingMetrics_sent getStreamingMetrics_result)

end
